theory Spec2Isabelle
  imports Main "HOL-Library.Word"
begin

section \<open>The build cache of isengard2: \<open>_db.py\<close>\<close>

text \<open>
  The module keeps three SQLite tables in one file. The embedding has three layers:
  the SQL statements of the module as functions on the content of a database, the
  \<open>sqlite3\<close> connection (implicit transactions, commit, rollback) with the methods of
  class \<open>DB\<close> on it, and the file with its open connections, on which
  \<open>init_or_reset_db\<close> and \<open>DB.connect\<close> work.

  Row identifiers are mathematical integers: the 64-bit limit of SQLite's rowid
  (beyond which it picks identifiers at random) is not modelled.
\<close>

subsection \<open>Values, rows and tables\<close>

type_synonym bytes = "8 word list"

text \<open>Rows as the tuples of their columns, in the order of the \<open>CREATE TABLE\<close> statements.\<close>

type_synonym version_row = "int \<times> int"
  \<comment> \<open>magic, value\<close>
type_synonym rule_run_row = "int \<times> bytes"
  \<comment> \<open>_id, fingerprint\<close>
type_synonym target_output_row = "int \<times> int \<times> string \<times> bytes"
  \<comment> \<open>_id, run, target, fingerprint\<close>

definition to_run :: "target_output_row \<Rightarrow> int" where
  "to_run r = fst (snd r)"

definition to_target :: "target_output_row \<Rightarrow> string" where
  "to_target r = fst (snd (snd r))"

definition to_fingerprint :: "target_output_row \<Rightarrow> bytes" where
  "to_fingerprint r = snd (snd (snd r))"

text \<open>
  A file that this module did not write may lack a table, or hold a table of that name
  with other columns; a statement that names the table or its columns then raises
  \<open>OperationalError\<close>.
\<close>

datatype 'r table = NoSuchTable | OtherLayout | Rows "'r list"

record database =
  version :: "version_row table"
  rule_run :: "rule_run_row table"
  target_output :: "target_output_row table"

datatype error =
    OperationalError
  | IntegrityError
  | DatabaseError
  | TypeError
  | FileNotFoundError
  | PermissionError
  | IsengardDBError

definition DB_VERSION :: int where
  "DB_VERSION = 1"

definition VERSION_MAGIC_NUMBER :: int where
  "VERSION_MAGIC_NUMBER = 76388"

subsection \<open>The SQL statements\<close>

text \<open>
  Each statement is atomic: it returns the new content, or an error and no change.
  \<open>CREATE TABLE IF NOT EXISTS\<close> leaves a table of that name as it is.
\<close>

definition create_if_not_exists :: "'r table \<Rightarrow> 'r table" where
  "create_if_not_exists t = (case t of NoSuchTable \<Rightarrow> Rows [] | _ \<Rightarrow> t)"

definition SQL_CREATE_VERSION_TABLE :: "database \<Rightarrow> error + database" where
  "SQL_CREATE_VERSION_TABLE d = Inr (d\<lparr>version := create_if_not_exists (version d)\<rparr>)"

definition SQL_CREATE_RULE_RUN_TABLE :: "database \<Rightarrow> error + database" where
  "SQL_CREATE_RULE_RUN_TABLE d = Inr (d\<lparr>rule_run := create_if_not_exists (rule_run d)\<rparr>)"

definition SQL_CREATE_TARGET_OUTPUT_TABLE :: "database \<Rightarrow> error + database" where
  "SQL_CREATE_TARGET_OUTPUT_TABLE d =
     Inr (d\<lparr>target_output := create_if_not_exists (target_output d)\<rparr>)"

text \<open>
  \<open>INSERT INTO version(value) VALUES(1)\<close>: the column \<open>magic\<close> takes its default, the
  magic number, and is \<open>UNIQUE\<close>.
\<close>

definition SQL_INIT_VERSION_ROW :: "database \<Rightarrow> error + database" where
  "SQL_INIT_VERSION_ROW d =
     (case version d of
        Rows rs \<Rightarrow>
          (if find (\<lambda>r. fst r = VERSION_MAGIC_NUMBER) rs \<noteq> None then Inl IntegrityError
           else Inr (d\<lparr>version := Rows (rs @ [(VERSION_MAGIC_NUMBER, DB_VERSION)])\<rparr>))
      | _ \<Rightarrow> Inl OperationalError)"

text \<open>
  The queries are followed by \<open>fetchone()\<close> in every use: the result is the first
  matching row, or \<open>None\<close>.
\<close>

definition SQL_FETCH_VERSION_ROW :: "database \<Rightarrow> error + int option" where
  "SQL_FETCH_VERSION_ROW d =
     (case version d of
        Rows rs \<Rightarrow> Inr (map_option snd (find (\<lambda>r. fst r = VERSION_MAGIC_NUMBER) rs))
      | _ \<Rightarrow> Inl OperationalError)"

definition SQL_FETCH_RULE_RUN :: "bytes \<Rightarrow> database \<Rightarrow> error + int option" where
  "SQL_FETCH_RULE_RUN fingerprint d =
     (case rule_run d of
        Rows rs \<Rightarrow> Inr (map_option fst (find (\<lambda>r. snd r = fingerprint) rs))
      | _ \<Rightarrow> Inl OperationalError)"

text \<open>
  An \<open>INTEGER PRIMARY KEY\<close> column that the \<open>INSERT\<close> leaves out gets 1 in an empty
  table and the largest identifier plus one otherwise.
\<close>

definition next_rowid :: "int list \<Rightarrow> int" where
  "next_rowid ids = (case ids of [] \<Rightarrow> 1 | i # is \<Rightarrow> fold max is i + 1)"

text \<open>
  The upsert: with no row of that fingerprint, a new row; otherwise
  \<open>DO UPDATE SET fingerprint = excluded.fingerprint\<close> writes the given fingerprint
  into the row in conflict.
\<close>

definition SQL_UPDATE_RULE_RUN :: "bytes \<Rightarrow> database \<Rightarrow> error + database" where
  "SQL_UPDATE_RULE_RUN fingerprint d =
     (case rule_run d of
        Rows rs \<Rightarrow>
          (if find (\<lambda>r. snd r = fingerprint) rs = None
           then Inr (d\<lparr>rule_run := Rows (rs @ [(next_rowid (map fst rs), fingerprint)])\<rparr>)
           else Inr (d\<lparr>rule_run :=
                  Rows (map (\<lambda>r. if snd r = fingerprint then (fst r, fingerprint) else r) rs)\<rparr>))
      | _ \<Rightarrow> Inl OperationalError)"

definition SQL_DELETE_TARGET_OUTPUTS :: "int \<Rightarrow> database \<Rightarrow> error + database" where
  "SQL_DELETE_TARGET_OUTPUTS run d =
     (case target_output d of
        Rows rs \<Rightarrow> Inr (d\<lparr>target_output := Rows (filter (\<lambda>r. to_run r \<noteq> run) rs)\<rparr>)
      | _ \<Rightarrow> Inl OperationalError)"

text \<open>
  The insert checks \<open>UNIQUE(run, target)\<close>. The foreign key on \<open>run\<close> is not checked:
  the module never turns \<open>PRAGMA foreign_keys\<close> on.
\<close>

definition SQL_INSERT_TARGET_OUTPUT ::
  "int \<times> string \<times> bytes \<Rightarrow> database \<Rightarrow> error + database" where
  "SQL_INSERT_TARGET_OUTPUT p d =
     (case target_output d of
        Rows rs \<Rightarrow>
          (if find (\<lambda>r. to_run r = fst p \<and> to_target r = fst (snd p)) rs \<noteq> None
           then Inl IntegrityError
           else Inr (d\<lparr>target_output :=
                  Rows (rs @ [(next_rowid (map fst rs), fst p, fst (snd p), snd (snd p))])\<rparr>))
      | _ \<Rightarrow> Inl OperationalError)"

definition SQL_FETCH_TARGET_OUTPUT :: "int \<Rightarrow> string \<Rightarrow> database \<Rightarrow> error + bytes option" where
  "SQL_FETCH_TARGET_OUTPUT run target d =
     (case target_output d of
        Rows rs \<Rightarrow>
          Inr (map_option to_fingerprint
                 (find (\<lambda>r. to_run r = run \<and> to_target r = target) rs))
      | _ \<Rightarrow> Inl OperationalError)"

subsection \<open>The connection\<close>

text \<open>
  A \<open>sqlite3.Connection\<close>: its handle, the content it sees, and, while a transaction
  is open, the content to which a rollback returns. The \<open>sqlite3\<close> module opens a
  transaction by itself before an \<open>INSERT\<close>, \<open>UPDATE\<close> or \<open>DELETE\<close> when none is
  open, and before nothing else.
\<close>

record connection =
  handle :: nat
  content :: database
  snapshot :: "database option"

definition begin_transaction :: "connection \<Rightarrow> connection" where
  "begin_transaction con = (case snapshot con of None \<Rightarrow> con\<lparr>snapshot := Some (content con)\<rparr> | Some _ \<Rightarrow> con)"

definition commit :: "connection \<Rightarrow> connection" where
  "commit con = con\<lparr>snapshot := None\<rparr>"

definition rollback :: "connection \<Rightarrow> connection" where
  "rollback con =
     (case snapshot con of None \<Rightarrow> con | Some d \<Rightarrow> con\<lparr>content := d, snapshot := None\<rparr>)"

text \<open>\<open>cur.execute\<close> of a statement that writes rows.\<close>

definition execute :: "(database \<Rightarrow> error + database) \<Rightarrow> connection \<Rightarrow> (error + unit) \<times> connection" where
  "execute stmt con =
     (case stmt (content (begin_transaction con)) of
        Inl e \<Rightarrow> (Inl e, begin_transaction con)
      | Inr d \<Rightarrow> (Inr (), (begin_transaction con)\<lparr>content := d\<rparr>))"

text \<open>\<open>cur.executemany\<close>: the statement once for each parameter tuple, up to the first error.\<close>

fun execute_each ::
  "('p \<Rightarrow> database \<Rightarrow> error + database) \<Rightarrow> 'p list \<Rightarrow> connection \<Rightarrow> (error + unit) \<times> connection" where
  "execute_each stmt [] con = (Inr (), con)"
| "execute_each stmt (p # ps) con =
     (case stmt p (content con) of
        Inl e \<Rightarrow> (Inl e, con)
      | Inr d \<Rightarrow> execute_each stmt ps (con\<lparr>content := d\<rparr>))"

definition executemany ::
  "('p \<Rightarrow> database \<Rightarrow> error + database) \<Rightarrow> 'p list \<Rightarrow> connection \<Rightarrow> (error + unit) \<times> connection" where
  "executemany stmt ps con = execute_each stmt ps (begin_transaction con)"

text \<open>
  \<open>with con:\<close> commits when the block ends normally and rolls back when it raises;
  the exception goes on to the caller.
\<close>

definition with_con ::
  "(connection \<Rightarrow> (error + 'a) \<times> connection) \<Rightarrow> connection \<Rightarrow> (error + 'a) \<times> connection" where
  "with_con block con =
     (case block con of
        (Inl e, con') \<Rightarrow> (Inl e, rollback con')
      | (Inr a, con') \<Rightarrow> (Inr a, commit con'))"

subsection \<open>The methods of \<open>DB\<close>\<close>

text \<open>The methods use \<open>self.con\<close> only, so they are functions of the connection.\<close>

definition fetch_rule_previous_run :: "bytes \<Rightarrow> connection \<Rightarrow> error + int option" where
  "fetch_rule_previous_run fingerprint con = SQL_FETCH_RULE_RUN fingerprint (content con)"

text \<open>
  \<open>row[0]\<close> on the \<open>None\<close> of an empty result raises \<open>TypeError\<close>. The assertion
  cannot fail: a primary key is never \<open>NULL\<close>.
\<close>

definition set_rule_previous_run ::
  "bytes \<Rightarrow> (string \<times> bytes) list \<Rightarrow> connection \<Rightarrow> (error + int) \<times> connection" where
  "set_rule_previous_run fingerprint outputs =
     with_con (\<lambda>con.
       case execute (SQL_UPDATE_RULE_RUN fingerprint) con of
         (Inl e, con1) \<Rightarrow> (Inl e, con1)
       | (Inr _, con1) \<Rightarrow>
           (case SQL_FETCH_RULE_RUN fingerprint (content con1) of
              Inl e \<Rightarrow> (Inl e, con1)
            | Inr None \<Rightarrow> (Inl TypeError, con1)
            | Inr (Some run_id) \<Rightarrow>
                (case execute (SQL_DELETE_TARGET_OUTPUTS run_id) con1 of
                   (Inl e, con2) \<Rightarrow> (Inl e, con2)
                 | (Inr _, con2) \<Rightarrow>
                     (case executemany SQL_INSERT_TARGET_OUTPUT
                             (map (\<lambda>out. (run_id, fst out, snd out)) outputs) con2 of
                        (Inl e, con3) \<Rightarrow> (Inl e, con3)
                      | (Inr _, con3) \<Rightarrow> (Inr run_id, con3)))))"

definition fetch_target_output_fingerprint ::
  "int \<Rightarrow> string \<Rightarrow> connection \<Rightarrow> error + bytes option" where
  "fetch_target_output_fingerprint run_id target con =
     SQL_FETCH_TARGET_OUTPUT run_id target (content con)"

subsection \<open>The file and its open connections\<close>

text \<open>
  What lies at the path is nothing, a file that SQLite does not read as a database, or a
  database. The world also keeps the connections that are open, each under its handle.
\<close>

datatype file_content = NotADatabase | SQLite database

record world =
  db_file :: "file_content option"
  open_cons :: "nat set"
  next_handle :: nat

text \<open>
  What the operating system and the storage engine may refuse: the first
  \<open>sqlite3_connect\<close>, the deletion of a file that exists, and one step of the
  recreation (step 0 the second \<open>sqlite3_connect\<close>, steps 1 to 4 the four statements).
\<close>

record faults =
  open_fault :: bool
  unlink_denied :: bool
  recreate_fault :: "nat option"

definition empty_database :: database where
  "empty_database = \<lparr>version = NoSuchTable, rule_run = NoSuchTable, target_output = NoSuchTable\<rparr>"

text \<open>A connection to a path with no file creates an empty database there.\<close>

definition the_content :: "world \<Rightarrow> file_content" where
  "the_content w = (case db_file w of None \<Rightarrow> SQLite empty_database | Some c \<Rightarrow> c)"

definition sqlite3_connect :: "bool \<Rightarrow> world \<Rightarrow> (error + nat) \<times> world" where
  "sqlite3_connect refused w =
     (if refused then (Inl OperationalError, w)
      else (Inr (next_handle w),
            w\<lparr>db_file := Some (the_content w),
              open_cons := insert (next_handle w) (open_cons w),
              next_handle := Suc (next_handle w)\<rparr>))"

definition close :: "nat \<Rightarrow> world \<Rightarrow> world" where
  "close h w = w\<lparr>open_cons := open_cons w - {h}\<rparr>"

definition unlink :: "faults \<Rightarrow> world \<Rightarrow> (error + unit) \<times> world" where
  "unlink fs w =
     (case db_file w of
        None \<Rightarrow> (Inl FileNotFoundError, w)
      | Some _ \<Rightarrow> (if unlink_denied fs then (Inl PermissionError, w) else (Inr (), w\<lparr>db_file := None\<rparr>)))"

subsection \<open>\<open>init_or_reset_db\<close> and \<open>DB.connect\<close>\<close>

text \<open>
  Lines 68 to 73, the optimistic check. Only \<open>OperationalError\<close> is caught. A file that
  is not a database makes the query raise \<open>DatabaseError\<close>; unpacking the \<open>None\<close>
  that \<open>fetchone()\<close> returns when no row has the magic number raises \<open>TypeError\<close>.
\<close>

definition current_db_version :: "file_content \<Rightarrow> error + int" where
  "current_db_version c =
     (case c of
        NotADatabase \<Rightarrow> Inl DatabaseError
      | SQLite d \<Rightarrow>
          (case SQL_FETCH_VERSION_ROW d of
             Inl e \<Rightarrow> (if e = OperationalError then Inr (- 1) else Inl e)
           | Inr None \<Rightarrow> Inl TypeError
           | Inr (Some v) \<Rightarrow> Inr v))"

text \<open>Lines 79 to 84: \<open>path.unlink()\<close> and its handlers.\<close>

definition unlink_incompatible :: "faults \<Rightarrow> world \<Rightarrow> (error + unit) \<times> world" where
  "unlink_incompatible fs w =
     (case unlink fs w of
        (Inl e, w') \<Rightarrow> (if e = FileNotFoundError then (Inr (), w') else (Inl IsengardDBError, w'))
      | (Inr u, w') \<Rightarrow> (Inr u, w'))"

text \<open>
  \<open>cur.execute\<close> of a \<open>CREATE TABLE\<close>: no transaction is opened for it, so outside a
  transaction it is committed at once.
\<close>

definition execute_ddl :: "(database \<Rightarrow> error + database) \<Rightarrow> connection \<Rightarrow> (error + unit) \<times> connection" where
  "execute_ddl stmt con =
     (case stmt (content con) of
        Inl e \<Rightarrow> (Inl e, con)
      | Inr d \<Rightarrow> (Inr (), con\<lparr>content := d\<rparr>))"

definition faulty :: "faults \<Rightarrow> nat \<Rightarrow> (database \<Rightarrow> error + database) \<Rightarrow> database \<Rightarrow> error + database" where
  "faulty fs k stmt d = (if recreate_fault fs = Some k then Inl OperationalError else stmt d)"

text \<open>
  Lines 86 to 95. The new connection is not closed on any path; the handler turns
  \<open>OperationalError\<close> into \<open>IsengardDBError\<close> and lets every other exception pass.
\<close>

definition recreate :: "faults \<Rightarrow> world \<Rightarrow> (error + connection) \<times> world" where
  "recreate fs w =
     (case sqlite3_connect (recreate_fault fs = Some 0) w of
        (Inl e, w1) \<Rightarrow> (Inl IsengardDBError, w1)
      | (Inr h, w1) \<Rightarrow>
          (case the_content w1 of
             NotADatabase \<Rightarrow> (Inl DatabaseError, w1)
           | SQLite d \<Rightarrow>
               (case with_con (\<lambda>con.
                       case execute_ddl (faulty fs 1 SQL_CREATE_VERSION_TABLE) con of
                         (Inl e, c1) \<Rightarrow> (Inl e, c1)
                       | (Inr _, c1) \<Rightarrow>
                       (case execute_ddl (faulty fs 2 SQL_CREATE_RULE_RUN_TABLE) c1 of
                         (Inl e, c2) \<Rightarrow> (Inl e, c2)
                       | (Inr _, c2) \<Rightarrow>
                       (case execute_ddl (faulty fs 3 SQL_CREATE_TARGET_OUTPUT_TABLE) c2 of
                         (Inl e, c3) \<Rightarrow> (Inl e, c3)
                       | (Inr _, c3) \<Rightarrow> execute (faulty fs 4 SQL_INIT_VERSION_ROW) c3)))
                     \<lparr>handle = h, content = d, snapshot = None\<rparr> of
                  (Inl e, con') \<Rightarrow>
                    (Inl (if e = OperationalError then IsengardDBError else e),
                     w1\<lparr>db_file := Some (SQLite (content con'))\<rparr>)
                | (Inr _, con') \<Rightarrow> (Inr con', w1\<lparr>db_file := Some (SQLite (content con'))\<rparr>))))"

definition init_or_reset_db :: "faults \<Rightarrow> world \<Rightarrow> (error + connection) \<times> world" where
  "init_or_reset_db fs w =
     (case sqlite3_connect (open_fault fs) w of
        (Inl e, w1) \<Rightarrow> (Inl IsengardDBError, w1)
      | (Inr h, w1) \<Rightarrow>
          (case current_db_version (the_content w1) of
             Inl e \<Rightarrow> (Inl e, w1)
           | Inr v \<Rightarrow>
               if v \<noteq> DB_VERSION then
                 (case unlink_incompatible fs (close h w1) of
                    (Inl e, w2) \<Rightarrow> (Inl e, w2)
                  | (Inr _, w2) \<Rightarrow> recreate fs w2)
               else
                 (case the_content w1 of
                    NotADatabase \<Rightarrow> (Inl DatabaseError, w1)
                  | SQLite d \<Rightarrow> (Inr \<lparr>handle = h, content = d, snapshot = None\<rparr>, w1))))"

text \<open>
  \<open>DB.connect\<close>: \<open>init_or_reset_db\<close> runs before the \<open>try\<close>; the block of the caller
  runs at the \<open>yield\<close>, and the \<open>finally\<close> closes the connection, which drops a
  transaction left open. What the block committed is then the content of the file.
\<close>

definition connect ::
  "faults \<Rightarrow> (connection \<Rightarrow> (error + 'a) \<times> connection) \<Rightarrow> world \<Rightarrow> (error + 'a) \<times> world" where
  "connect fs block w =
     (case init_or_reset_db fs w of
        (Inl e, w1) \<Rightarrow> (Inl e, w1)
      | (Inr con, w1) \<Rightarrow>
          (case block con of
             (r, con') \<Rightarrow>
               (r, close (handle con) (w1\<lparr>db_file := Some (SQLite (content (rollback con')))\<rparr>))))"

subsection \<open>Stores that the methods can work on\<close>

definition has_rows :: "'r table \<Rightarrow> bool" where
  "has_rows t = (case t of Rows _ \<Rightarrow> True | _ \<Rightarrow> False)"

definition rows :: "'r table \<Rightarrow> 'r list" where
  "rows t = (case t of Rows rs \<Rightarrow> rs | _ \<Rightarrow> [])"

text \<open>
  A connection is ready when the two tables of the run store exist in the layout of
  this module and no transaction is open, as after \<open>init_or_reset_db\<close> and after every
  method of \<open>DB\<close>.
\<close>

definition ready :: "connection \<Rightarrow> bool" where
  "ready con =
     (has_rows (rule_run (content con)) \<and> has_rows (target_output (content con))
      \<and> snapshot con = None)"

text \<open>A caller that records runs one after another, going on after a call that raised.\<close>

definition record_runs :: "(bytes \<times> (string \<times> bytes) list) list \<Rightarrow> connection \<Rightarrow> connection" where
  "record_runs calls con =
     foldl (\<lambda>c call. snd (set_rule_previous_run (fst call) (snd call) c)) con calls"

section \<open>Properties\<close>

subsection \<open>Statements and transactions\<close>

lemma has_rows_iff: "has_rows t \<longleftrightarrow> (\<exists>rs. t = Rows rs)"
  by (cases t) (simp_all add: has_rows_def)

lemma upsert_conflict_same:
  "map (\<lambda>r. if snd r = f then (fst r, f) else r) rs = rs"
  by (induction rs) auto

lemma execute_each_only_content:
  "\<exists>d. snd (execute_each stmt ps (con::connection)) = con\<lparr>content := d\<rparr>"
proof (induction ps arbitrary: con)
  case Nil
  show ?case by (rule exI [of _ "content con"]) simp
next
  case (Cons p ps)
  show ?case
  proof (cases "stmt p (content con)")
    case (Inl e)
    then show ?thesis by (intro exI [of _ "content con"]) simp
  next
    case (Inr d)
    from Cons.IH [of "con\<lparr>content := d\<rparr>"] obtain d' where
      "snd (execute_each stmt ps (con\<lparr>content := d\<rparr>)) = con\<lparr>content := d, content := d'\<rparr>" by blast
    with Inr show ?thesis by (intro exI [of _ d']) simp
  qed
qed

lemma insert_each_ok:
  assumes "target_output (content con) = Rows ts"
    and "distinct (map fst outs)"
    and "\<forall>out\<in>set outs. \<forall>row\<in>set ts. \<not> (to_run row = r \<and> to_target row = fst out)"
  shows "\<exists>new. execute_each SQL_INSERT_TARGET_OUTPUT (map (\<lambda>out. (r, fst out, snd out)) outs) con
            = (Inr (), con\<lparr>content := (content con)\<lparr>target_output := Rows (ts @ new)\<rparr>\<rparr>)
          \<and> map snd new = map (\<lambda>out. (r, fst out, snd out)) outs"
  using assms
proof (induction outs arbitrary: con ts)
  case Nil
  then show ?case by (intro exI [of _ "[]"]) simp
next
  case (Cons out outs)
  let ?new = "(next_rowid (map fst ts), r, fst out, snd out)"
  let ?con = "con\<lparr>content := (content con)\<lparr>target_output := Rows (ts @ [?new])\<rparr>\<rparr>"
  have free: "find (\<lambda>row. to_run row = r \<and> to_target row = fst out) ts = None"
    using Cons.prems(3) by (auto simp: find_None_iff)
  have step: "SQL_INSERT_TARGET_OUTPUT (r, fst out, snd out) (content con)
      = Inr ((content con)\<lparr>target_output := Rows (ts @ [?new])\<rparr>)"
    using Cons.prems(1) free by (simp add: SQL_INSERT_TARGET_OUTPUT_def)
  have "\<forall>o'\<in>set outs. \<forall>row\<in>set (ts @ [?new]). \<not> (to_run row = r \<and> to_target row = fst o')"
    using Cons.prems(2,3) by (auto simp: to_target_def)
  with Cons.IH [of ?con "ts @ [?new]"] Cons.prems(2)
  obtain new where
    "execute_each SQL_INSERT_TARGET_OUTPUT (map (\<lambda>out. (r, fst out, snd out)) outs) ?con
       = (Inr (), ?con\<lparr>content := (content ?con)\<lparr>target_output := Rows ((ts @ [?new]) @ new)\<rparr>\<rparr>)"
    "map snd new = map (\<lambda>out. (r, fst out, snd out)) outs"
    by auto
  with step show ?case by (intro exI [of _ "?new # new"]) simp
qed

lemma insert_each_clash:
  assumes "target_output (content con) = Rows ts"
    and "\<not> (distinct (map fst outs)
         \<and> (\<forall>out\<in>set outs. \<forall>row\<in>set ts. \<not> (to_run row = r \<and> to_target row = fst out)))"
  shows "fst (execute_each SQL_INSERT_TARGET_OUTPUT (map (\<lambda>out. (r, fst out, snd out)) outs) con)
            = Inl IntegrityError"
  using assms
proof (induction outs arbitrary: con ts)
  case Nil
  then show ?case by simp
next
  case (Cons out outs)
  let ?new = "(next_rowid (map fst ts), r, fst out, snd out)"
  let ?con = "con\<lparr>content := (content con)\<lparr>target_output := Rows (ts @ [?new])\<rparr>\<rparr>"
  show ?case
  proof (cases "find (\<lambda>row. to_run row = r \<and> to_target row = fst out) ts = None")
    case False
    then show ?thesis using Cons.prems(1) by (simp add: SQL_INSERT_TARGET_OUTPUT_def)
  next
    case True
    then have step: "SQL_INSERT_TARGET_OUTPUT (r, fst out, snd out) (content con)
      = Inr ((content con)\<lparr>target_output := Rows (ts @ [?new])\<rparr>)"
      using Cons.prems(1) by (simp add: SQL_INSERT_TARGET_OUTPUT_def)
    from True have noclash: "\<forall>row\<in>set ts. \<not> (to_run row = r \<and> to_target row = fst out)"
      by (auto simp: find_None_iff)
    have "\<not> (distinct (map fst outs)
         \<and> (\<forall>o'\<in>set outs. \<forall>row\<in>set (ts @ [?new]). \<not> (to_run row = r \<and> to_target row = fst o')))"
      using Cons.prems(2) noclash by (auto simp: to_target_def to_run_def)
    with Cons.IH [of ?con "ts @ [?new]"] step show ?thesis by simp
  qed
qed


lemma begin_None: "snapshot con = None \<Longrightarrow> begin_transaction con = con\<lparr>snapshot := Some (content con)\<rparr>"
  by (simp add: begin_transaction_def)

lemma begin_Some: "snapshot con = Some s \<Longrightarrow> begin_transaction con = con"
  by (simp add: begin_transaction_def)

lemma execute_shape:
  "\<exists>d. snd (execute stmt (con::connection)) = (begin_transaction con)\<lparr>content := d\<rparr>"
proof (cases "stmt (content (begin_transaction con))")
  case (Inl e)
  then show ?thesis
    by (intro exI [of _ "content (begin_transaction con)"]) (simp add: execute_def)
next
  case (Inr d)
  then show ?thesis by (intro exI [of _ d]) (simp add: execute_def)
qed

lemma executemany_shape:
  "\<exists>d. snd (executemany stmt ps (con::connection)) = (begin_transaction con)\<lparr>content := d\<rparr>"
  unfolding executemany_def by (rule execute_each_only_content)

lemma rollback_begun:
  "snapshot (con::connection) = None \<Longrightarrow> rollback ((begin_transaction con)\<lparr>content := d\<rparr>) = con"
  by (simp add: rollback_def begin_transaction_def)

lemma begin_begun:
  "begin_transaction ((begin_transaction con)\<lparr>content := d\<rparr>) = (begin_transaction con)\<lparr>content := d\<rparr>"
  by (simp add: begin_transaction_def split: option.splits)

lemma set_fail_unchanged:
  assumes "snapshot (con::connection) = None"
    and "fst (set_rule_previous_run f outs con) = Inl e"
  shows "snd (set_rule_previous_run f outs con) = con"
proof -
  obtain d1 where c1: "snd (execute (SQL_UPDATE_RULE_RUN f) con) = (begin_transaction con)\<lparr>content := d1\<rparr>"
    using execute_shape by blast
  let ?c1 = "(begin_transaction con)\<lparr>content := d1\<rparr>"
  have c2: "\<exists>d. snd (execute stmt ?c1) = (begin_transaction con)\<lparr>content := d\<rparr>" for stmt
    using execute_shape [of stmt ?c1] by (simp add: begin_begun)
  have c3: "\<exists>d. snd (executemany stmt ps ((begin_transaction con)\<lparr>content := d2\<rparr>))
      = (begin_transaction con)\<lparr>content := d\<rparr>" for stmt :: "int \<times> string \<times> bytes \<Rightarrow> database \<Rightarrow> error + database" and ps d2
    using executemany_shape [of stmt ps "(begin_transaction con)\<lparr>content := d2\<rparr>"] by (simp add: begin_begun)
  have "\<exists>d. snd ((\<lambda>con.
       case execute (SQL_UPDATE_RULE_RUN f) con of
         (Inl e, con1) \<Rightarrow> (Inl e, con1)
       | (Inr _, con1) \<Rightarrow>
           (case SQL_FETCH_RULE_RUN f (content con1) of
              Inl e \<Rightarrow> (Inl e, con1)
            | Inr None \<Rightarrow> (Inl TypeError, con1)
            | Inr (Some run_id) \<Rightarrow>
                (case execute (SQL_DELETE_TARGET_OUTPUTS run_id) con1 of
                   (Inl e, con2) \<Rightarrow> (Inl e, con2)
                 | (Inr _, con2) \<Rightarrow>
                     (case executemany SQL_INSERT_TARGET_OUTPUT
                             (map (\<lambda>out. (run_id, fst out, snd out)) outs) con2 of
                        (Inl e, con3) \<Rightarrow> (Inl e, con3)
                      | (Inr _, con3) \<Rightarrow> (Inr run_id, con3))))) con) = (begin_transaction con)\<lparr>content := d\<rparr>"
    (is "\<exists>d. snd (?block con) = _")
  proof (cases "execute (SQL_UPDATE_RULE_RUN f) con")
    case (Pair r1 con1)
    with c1 have con1: "con1 = ?c1" by simp
    show ?thesis
    proof (cases r1)
      case (Inl e1)
      with Pair con1 show ?thesis by auto
    next
      case (Inr u1)
      show ?thesis
      proof (cases "SQL_FETCH_RULE_RUN f (content con1)")
        case (Inl e2)
        with Pair Inr con1 show ?thesis by auto
      next
        case fetched: (Inr row)
        show ?thesis
        proof (cases row)
          case None
          with Pair Inr fetched con1 show ?thesis by auto
        next
          case (Some run_id)
          obtain r2 con2 where ex2: "execute (SQL_DELETE_TARGET_OUTPUTS run_id) con1 = (r2, con2)"
            by (cases "execute (SQL_DELETE_TARGET_OUTPUTS run_id) con1")
          with c2 [of "SQL_DELETE_TARGET_OUTPUTS run_id"] con1
          obtain d2 where con2: "con2 = (begin_transaction con)\<lparr>content := d2\<rparr>" by auto
          show ?thesis
          proof (cases r2)
            case (Inl e3)
            with Pair Inr fetched Some ex2 con2 show ?thesis by auto
          next
            case del: (Inr u2)
            obtain r3 con3 where ex3: "executemany SQL_INSERT_TARGET_OUTPUT
                  (map (\<lambda>out. (run_id, fst out, snd out)) outs) con2 = (r3, con3)"
              by (cases "executemany SQL_INSERT_TARGET_OUTPUT
                  (map (\<lambda>out. (run_id, fst out, snd out)) outs) con2")
            with c3 [of SQL_INSERT_TARGET_OUTPUT "map (\<lambda>out. (run_id, fst out, snd out)) outs" d2] con2
            obtain d3 where con3: "con3 = (begin_transaction con)\<lparr>content := d3\<rparr>" by auto
            from Pair Inr fetched Some ex2 del ex3 con3 show ?thesis
              by (cases r3) auto
          qed
        qed
      qed
    qed
  qed
  then obtain d where blk: "snd (?block con) = (begin_transaction con)\<lparr>content := d\<rparr>" by blast
  obtain r c where rc: "?block con = (r, c)" by (cases "?block con")
  with blk have c: "c = (begin_transaction con)\<lparr>content := d\<rparr>" by simp
  from assms(2) rc have "\<exists>e. r = Inl e"
    unfolding set_rule_previous_run_def with_con_def by (cases r) simp_all
  then obtain e' where "r = Inl e'" by blast
  with rc c have "set_rule_previous_run f outs con = (Inl e', rollback ((begin_transaction con)\<lparr>content := d\<rparr>))"
    unfolding set_rule_previous_run_def with_con_def by simp
  with assms(1) show ?thesis by (simp add: rollback_begun)
qed


lemma upsert_rows:
  assumes "rule_run d = Rows rs"
  shows "SQL_UPDATE_RULE_RUN f d = Inr (d\<lparr>rule_run := Rows
           (if find (\<lambda>r. snd r = f) rs = None then rs @ [(next_rowid (map fst rs), f)] else rs)\<rparr>)"
  using assms by (simp add: SQL_UPDATE_RULE_RUN_def upsert_conflict_same)

lemma upsert_found:
  "find (\<lambda>r. snd r = f)
     (if find (\<lambda>r. snd r = f) rs = None then rs @ [(i, f)] else rs) \<noteq> None"
  by (auto simp: find_None_iff)

lemma set_ok:
  assumes rr: "rule_run (content con) = Rows rs"
    and tt: "target_output (content con) = Rows ts"
    and sn: "snapshot (con::connection) = None"
    and dist: "distinct (map fst outs)"
  shows "\<exists>run_id new.
     set_rule_previous_run f outs con =
       (Inr run_id, con\<lparr>content := (content con)\<lparr>rule_run := Rows
           (if find (\<lambda>r. snd r = f) rs = None then rs @ [(next_rowid (map fst rs), f)] else rs),
           target_output := Rows (filter (\<lambda>r. to_run r \<noteq> run_id) ts @ new)\<rparr>\<rparr>)
     \<and> map_option fst (find (\<lambda>r. snd r = f)
           (if find (\<lambda>r. snd r = f) rs = None then rs @ [(next_rowid (map fst rs), f)] else rs))
         = Some run_id
     \<and> map snd new = map (\<lambda>out. (run_id, fst out, snd out)) outs"
proof -
  let ?d = "content con"
  let ?rs = "if find (\<lambda>r. snd r = f) rs = None then rs @ [(next_rowid (map fst rs), f)] else rs"
  let ?c0 = "con\<lparr>snapshot := Some ?d\<rparr>"
  let ?c1 = "?c0\<lparr>content := ?d\<lparr>rule_run := Rows ?rs\<rparr>\<rparr>"
  have e1: "execute (SQL_UPDATE_RULE_RUN f) con = (Inr (), ?c1)"
    using upsert_rows [OF rr, of f] sn by (simp add: execute_def begin_None)
  obtain row where row: "find (\<lambda>r. snd r = f) ?rs = Some row"
    using upsert_found [of f rs "next_rowid (map fst rs)"] by blast
  let ?run = "fst row"
  have e2: "SQL_FETCH_RULE_RUN f (content ?c1) = Inr (Some ?run)"
    using row by (simp add: SQL_FETCH_RULE_RUN_def)
  let ?ts1 = "filter (\<lambda>r. to_run r \<noteq> ?run) ts"
  let ?c2 = "?c1\<lparr>content := (content ?c1)\<lparr>target_output := Rows ?ts1\<rparr>\<rparr>"
  have b1: "begin_transaction ?c1 = ?c1" by (simp add: begin_transaction_def)
  have e3: "execute (SQL_DELETE_TARGET_OUTPUTS ?run) ?c1 = (Inr (), ?c2)"
    using tt unfolding execute_def b1 by (simp add: SQL_DELETE_TARGET_OUTPUTS_def)
  have b2: "begin_transaction ?c2 = ?c2" by (simp add: begin_transaction_def)
  have t2: "target_output (content ?c2) = Rows ?ts1" by simp
  have nc: "\<forall>out\<in>set outs. \<forall>row\<in>set ?ts1. \<not> (to_run row = ?run \<and> to_target row = fst out)"
    by simp
  from insert_each_ok [OF t2 dist nc] obtain new where
    e4: "execute_each SQL_INSERT_TARGET_OUTPUT (map (\<lambda>out. (?run, fst out, snd out)) outs) ?c2
       = (Inr (), ?c2\<lparr>content := (content ?c2)\<lparr>target_output := Rows (?ts1 @ new)\<rparr>\<rparr>)"
    and m: "map snd new = map (\<lambda>out. (?run, fst out, snd out)) outs"
    by blast
  have e4': "executemany SQL_INSERT_TARGET_OUTPUT (map (\<lambda>out. (?run, fst out, snd out)) outs) ?c2
       = (Inr (), ?c2\<lparr>content := (content ?c2)\<lparr>target_output := Rows (?ts1 @ new)\<rparr>\<rparr>)"
    unfolding executemany_def b2 by (rule e4)
  have "set_rule_previous_run f outs con =
       (Inr ?run, commit (?c2\<lparr>content := (content ?c2)\<lparr>target_output := Rows (?ts1 @ new)\<rparr>\<rparr>))"
    unfolding set_rule_previous_run_def with_con_def
    by (simp only: e1 e2 e3 e4' prod.case sum.case option.case)
  moreover have "commit (?c2\<lparr>content := (content ?c2)\<lparr>target_output := Rows (?ts1 @ new)\<rparr>\<rparr>)
      = con\<lparr>content := ?d\<lparr>rule_run := Rows ?rs, target_output := Rows (?ts1 @ new)\<rparr>\<rparr>"
    using sn by (simp add: commit_def)
  ultimately show ?thesis using row m by (intro exI [of _ ?run] exI [of _ new]) simp
qed

lemma set_dup:
  assumes rr: "rule_run (content con) = Rows rs"
    and tt: "target_output (content con) = Rows ts"
    and sn: "snapshot (con::connection) = None"
    and dup: "\<not> distinct (map fst outs)"
  shows "set_rule_previous_run f outs con = (Inl IntegrityError, con)"
proof -
  let ?d = "content con"
  let ?rs = "if find (\<lambda>r. snd r = f) rs = None then rs @ [(next_rowid (map fst rs), f)] else rs"
  let ?c0 = "con\<lparr>snapshot := Some ?d\<rparr>"
  let ?c1 = "?c0\<lparr>content := ?d\<lparr>rule_run := Rows ?rs\<rparr>\<rparr>"
  have e1: "execute (SQL_UPDATE_RULE_RUN f) con = (Inr (), ?c1)"
    using upsert_rows [OF rr, of f] sn by (simp add: execute_def begin_None)
  obtain row where row: "find (\<lambda>r. snd r = f) ?rs = Some row"
    using upsert_found [of f rs "next_rowid (map fst rs)"] by blast
  let ?run = "fst row"
  have e2: "SQL_FETCH_RULE_RUN f (content ?c1) = Inr (Some ?run)"
    using row by (simp add: SQL_FETCH_RULE_RUN_def)
  let ?ts1 = "filter (\<lambda>r. to_run r \<noteq> ?run) ts"
  let ?c2 = "?c1\<lparr>content := (content ?c1)\<lparr>target_output := Rows ?ts1\<rparr>\<rparr>"
  have b1: "begin_transaction ?c1 = ?c1" by (simp add: begin_transaction_def)
  have e3: "execute (SQL_DELETE_TARGET_OUTPUTS ?run) ?c1 = (Inr (), ?c2)"
    using tt unfolding execute_def b1 by (simp add: SQL_DELETE_TARGET_OUTPUTS_def)
  have b2: "begin_transaction ?c2 = ?c2" by (simp add: begin_transaction_def)
  have t2: "target_output (content ?c2) = Rows ?ts1" by simp
  have "fst (execute_each SQL_INSERT_TARGET_OUTPUT (map (\<lambda>out. (?run, fst out, snd out)) outs) ?c2)
       = Inl IntegrityError"
    using dup by (intro insert_each_clash [OF t2]) simp
  then have "fst (executemany SQL_INSERT_TARGET_OUTPUT (map (\<lambda>out. (?run, fst out, snd out)) outs) ?c2)
       = Inl IntegrityError"
    unfolding executemany_def b2 .
  then obtain c3 where e4: "executemany SQL_INSERT_TARGET_OUTPUT
        (map (\<lambda>out. (?run, fst out, snd out)) outs) ?c2 = (Inl IntegrityError, c3)"
    by (cases "executemany SQL_INSERT_TARGET_OUTPUT (map (\<lambda>out. (?run, fst out, snd out)) outs) ?c2") simp
  have "fst (set_rule_previous_run f outs con) = Inl IntegrityError"
    unfolding set_rule_previous_run_def with_con_def
    by (simp only: e1 e2 e3 e4 prod.case sum.case option.case fst_conv)
  with set_fail_unchanged [OF sn this] show ?thesis
    by (cases "set_rule_previous_run f outs con") simp
qed

subsection \<open>Atomicity of \<open>set_rule_previous_run\<close>\<close>

text \<open>
  C1. \<open>set_rule_previous_run\<close> is one atomic unit. Called with no transaction open,
  whenever it raises, at whatever step, the connection is left exactly as it was: the
  upsert, the deletion and the rows inserted so far are rolled back. In particular, on
  a ready store, outputs that name one target twice raise the uniqueness failure
  \<open>IntegrityError\<close> and change nothing.
\<close>

theorem set_rule_previous_run_atomic:
  assumes "snapshot (con::connection) = None"
  shows "(\<forall>e. fst (set_rule_previous_run f outs con) = Inl e
            \<longrightarrow> snd (set_rule_previous_run f outs con) = con)
       \<and> (ready con \<and> \<not> distinct (map fst outs)
            \<longrightarrow> set_rule_previous_run f outs con = (Inl IntegrityError, con))"
proof (intro conjI allI impI)
  fix e
  assume "fst (set_rule_previous_run f outs con) = Inl e"
  with assms show "snd (set_rule_previous_run f outs con) = con"
    by (rule set_fail_unchanged)
next
  assume a: "ready con \<and> \<not> distinct (map fst outs)"
  then obtain rs ts where "rule_run (content con) = Rows rs" "target_output (content con) = Rows ts"
    by (auto simp: ready_def has_rows_iff)
  with a assms show "set_rule_previous_run f outs con = (Inl IntegrityError, con)"
    by (intro set_dup) auto
qed

theorem set_rule_previous_run_atomic_witness:
  "snapshot \<lparr>handle = 0, content = \<lparr>version = Rows [(76388, 1)], rule_run = Rows [(1, [7])],
        target_output = Rows [(1, 1, ''//a:build'', [170])]\<rparr>, snapshot = None\<rparr> = None
   \<and> ready \<lparr>handle = 0, content = \<lparr>version = Rows [(76388, 1)], rule_run = Rows [(1, [7])],
        target_output = Rows [(1, 1, ''//a:build'', [170])]\<rparr>, snapshot = None\<rparr>
   \<and> \<not> distinct (map fst [(''//a:test'', [187::8 word]), (''//a:test'', [204])])
   \<and> set_rule_previous_run [7] [(''//a:test'', [187]), (''//a:test'', [204])]
        \<lparr>handle = 0, content = \<lparr>version = Rows [(76388, 1)], rule_run = Rows [(1, [7])],
          target_output = Rows [(1, 1, ''//a:build'', [170])]\<rparr>, snapshot = None\<rparr>
      = (Inl IntegrityError,
        \<lparr>handle = 0, content = \<lparr>version = Rows [(76388, 1)], rule_run = Rows [(1, [7])],
          target_output = Rows [(1, 1, ''//a:build'', [170])]\<rparr>, snapshot = None\<rparr>)"
  using set_rule_previous_run_atomic
    [of "\<lparr>handle = 0, content = \<lparr>version = Rows [(76388, 1)], rule_run = Rows [(1, [7])],
          target_output = Rows [(1, 1, ''//a:build'', [170])]\<rparr>, snapshot = None\<rparr>"
        "[7]" "[(''//a:test'', [187]), (''//a:test'', [204])]"]
  by (simp add: ready_def has_rows_def)

subsection \<open>Reading back what was recorded\<close>

lemmas run_store_defs =
  set_rule_previous_run_def with_con_def execute_def executemany_def begin_transaction_def
  commit_def rollback_def SQL_UPDATE_RULE_RUN_def SQL_FETCH_RULE_RUN_def
  SQL_DELETE_TARGET_OUTPUTS_def SQL_INSERT_TARGET_OUTPUT_def SQL_FETCH_TARGET_OUTPUT_def
  fetch_rule_previous_run_def fetch_target_output_fingerprint_def
  next_rowid_def to_run_def to_target_def to_fingerprint_def ready_def has_rows_def rows_def

lemma find_append_rows:
  "find P (xs @ ys) = (case find P xs of None \<Rightarrow> find P ys | Some x \<Rightarrow> Some x)"
  by (induction xs) auto

lemma find_filter_implied:
  "(\<And>x. P x \<Longrightarrow> Q x) \<Longrightarrow> find P (filter Q xs) = find P xs"
  by (induction xs) auto

lemma find_new_rows:
  assumes "map snd new = map (\<lambda>out. (run, fst out, snd out)) outs"
  shows "map_option to_fingerprint (find (\<lambda>r. to_run r = run' \<and> to_target r = t) new)
       = (if run' = run then map_option snd (find (\<lambda>out. fst out = t) outs) else None)"
  using assms
proof (induction new arbitrary: outs)
  case Nil
  then show ?case by simp
next
  case (Cons row new)
  then obtain out outs' where outs: "outs = out # outs'" by (cases outs) auto
  with Cons.prems have row: "snd row = (run, fst out, snd out)"
    and rest: "map snd new = map (\<lambda>out. (run, fst out, snd out)) outs'" by auto
  from Cons.IH [OF rest] row outs show ?case
    by (auto simp: to_run_def to_target_def to_fingerprint_def)
qed

lemma fetch_after_replace:
  assumes "target_output (content con') = Rows (filter (\<lambda>r. to_run r \<noteq> run) ts @ new)"
    and "target_output (content con) = Rows ts"
    and "map snd new = map (\<lambda>out. (run, fst out, snd out)) outs"
  shows "fetch_target_output_fingerprint run' t con' =
          (if run' = run then Inr (map_option snd (find (\<lambda>out. fst out = t) outs))
           else fetch_target_output_fingerprint run' t con)"
proof (cases "run' = run")
  case True
  have "find (\<lambda>r. to_run r = run \<and> to_target r = t) (filter (\<lambda>r. to_run r \<noteq> run) ts) = None"
    by (simp add: find_None_iff)
  with True assms(1) find_new_rows [OF assms(3), of run t] show ?thesis
    by (simp add: fetch_target_output_fingerprint_def SQL_FETCH_TARGET_OUTPUT_def find_append_rows)
next
  case False
  have "find (\<lambda>r. to_run r = run' \<and> to_target r = t) (filter (\<lambda>r. to_run r \<noteq> run) ts)
      = find (\<lambda>r. to_run r = run' \<and> to_target r = t) ts"
    using False by (intro find_filter_implied) auto
  with False assms(1,2) find_new_rows [OF assms(3), of run' t] show ?thesis
    by (simp add: fetch_target_output_fingerprint_def SQL_FETCH_TARGET_OUTPUT_def find_append_rows
        split: option.splits)
qed

lemma find_distinct_key:
  "distinct (map fst outs) \<Longrightarrow> out \<in> set outs \<Longrightarrow> find (\<lambda>x. fst x = fst out) outs = Some out"
  by (induction outs) (auto simp: image_iff)

lemma ready_tables:
  assumes "ready con"
  obtains rs ts where "rule_run (content con) = Rows rs" "target_output (content con) = Rows ts"
    "snapshot con = None"
  using assms by (auto simp: ready_def has_rows_iff)

text \<open>What a call does on a ready store, by whether the targets are distinct.\<close>

lemma set_ready_cases:
  assumes "ready con"
  obtains (raised) "\<not> distinct (map fst outs)"
      "set_rule_previous_run f outs con = (Inl IntegrityError, con)"
    | (returned) run_id new rs ts where "distinct (map fst outs)"
      "rule_run (content con) = Rows rs" "target_output (content con) = Rows ts"
      "set_rule_previous_run f outs con =
        (Inr run_id, con\<lparr>content := (content con)\<lparr>rule_run := Rows
           (if find (\<lambda>r. snd r = f) rs = None then rs @ [(next_rowid (map fst rs), f)] else rs),
           target_output := Rows (filter (\<lambda>r. to_run r \<noteq> run_id) ts @ new)\<rparr>\<rparr>)"
      "map_option fst (find (\<lambda>r. snd r = f)
           (if find (\<lambda>r. snd r = f) rs = None then rs @ [(next_rowid (map fst rs), f)] else rs))
         = Some run_id"
      "map snd new = map (\<lambda>out. (run_id, fst out, snd out)) outs"
proof -
  from assms obtain rs ts where t: "rule_run (content con) = Rows rs"
    "target_output (content con) = Rows ts" "snapshot con = None"
    by (rule ready_tables)
  show thesis
  proof (cases "distinct (map fst outs)")
    case False
    with set_dup [OF t False, of f] raised show ?thesis by blast
  next
    case True
    from set_ok [OF t True, of f] obtain run_id new where
      "set_rule_previous_run f outs con =
        (Inr run_id, con\<lparr>content := (content con)\<lparr>rule_run := Rows
           (if find (\<lambda>r. snd r = f) rs = None then rs @ [(next_rowid (map fst rs), f)] else rs),
           target_output := Rows (filter (\<lambda>r. to_run r \<noteq> run_id) ts @ new)\<rparr>\<rparr>)"
      "map_option fst (find (\<lambda>r. snd r = f)
           (if find (\<lambda>r. snd r = f) rs = None then rs @ [(next_rowid (map fst rs), f)] else rs))
         = Some run_id"
      "map snd new = map (\<lambda>out. (run_id, fst out, snd out)) outs"
      by blast
    with True t(1,2) returned show ?thesis by blast
  qed
qed

lemma set_keeps_ready:
  assumes "ready con"
  shows "ready (snd (set_rule_previous_run f outs con))"
  using assms
proof (cases rule: set_ready_cases [of con outs f])
  case raised
  with assms show ?thesis by simp
next
  case (returned run_id new rs ts)
  with assms show ?thesis by (simp add: ready_def has_rows_def)
qed

lemma set_then_fetch_run:
  assumes "ready con" "set_rule_previous_run f outs con = (Inr run_id, con')"
  shows "fetch_rule_previous_run f con' = Inr (Some run_id)"
  using assms(1)
proof (cases rule: set_ready_cases [of con outs f])
  case raised
  with assms(2) show ?thesis by simp
next
  case (returned run_id' new rs ts)
  with assms(2) show ?thesis
    by (auto simp: fetch_rule_previous_run_def SQL_FETCH_RULE_RUN_def)
qed

lemma set_other_run:
  assumes "ready con" "f' \<noteq> f"
  shows "fetch_rule_previous_run f (snd (set_rule_previous_run f' outs con))
       = fetch_rule_previous_run f con"
  using assms(1)
proof (cases rule: set_ready_cases [of con outs f'])
  case raised
  then show ?thesis by simp
next
  case (returned run_id new rs ts)
  with assms(2) show ?thesis
    by (simp add: fetch_rule_previous_run_def SQL_FETCH_RULE_RUN_def find_append_rows
        split: option.splits)
qed

lemma set_then_fetch_output:
  assumes "ready con" "set_rule_previous_run f outs con = (Inr run_id, con')"
  shows "fetch_target_output_fingerprint run' t con' =
          (if run' = run_id then Inr (map_option snd (find (\<lambda>out. fst out = t) outs))
           else fetch_target_output_fingerprint run' t con)"
  using assms(1)
proof (cases rule: set_ready_cases [of con outs f])
  case raised
  with assms(2) show ?thesis by simp
next
  case (returned run_id' new rs ts)
  with assms(2) have eq: "run_id' = run_id" and
    con': "con' = con\<lparr>content := (content con)\<lparr>rule_run := Rows
           (if find (\<lambda>r. snd r = f) rs = None then rs @ [(next_rowid (map fst rs), f)] else rs),
           target_output := Rows (filter (\<lambda>r. to_run r \<noteq> run_id) ts @ new)\<rparr>\<rparr>"
    by auto
  from con' have "target_output (content con') = Rows (filter (\<lambda>r. to_run r \<noteq> run_id) ts @ new)"
    by simp
  from fetch_after_replace [OF this returned(3)] returned(6) eq show ?thesis by simp
qed

text \<open>
  C2. Idempotence by fingerprint. On a ready store, recording the fingerprint \<open>f\<close> with
  \<open>outs1\<close> and then with \<open>outs2\<close> (each naming its targets once) returns the same run
  identifier both times, and the second upsert leaves the table \<open>rule_run\<close> as it was.
  Afterwards every target of \<open>outs2\<close> has its fingerprint of \<open>outs2\<close>, and every other
  target, so every target recorded in \<open>outs1\<close> only, has none.
\<close>

theorem record_run_idempotent:
  assumes "ready con" "distinct (map fst outs1)" "distinct (map fst outs2)"
  shows "\<exists>run_id con1 con2.
      set_rule_previous_run f outs1 con = (Inr run_id, con1)
    \<and> set_rule_previous_run f outs2 con1 = (Inr run_id, con2)
    \<and> rule_run (content con2) = rule_run (content con1)
    \<and> (\<forall>out\<in>set outs2. fetch_target_output_fingerprint run_id (fst out) con2 = Inr (Some (snd out)))
    \<and> (\<forall>t. t \<notin> fst ` set outs2 \<longrightarrow> fetch_target_output_fingerprint run_id t con2 = Inr None)"
  using assms(1)
proof (cases rule: set_ready_cases [of con outs1 f])
  case raised
  with assms(2) show ?thesis by simp
next
  case first: (returned run1 new1 rs ts)
  let ?rs1 = "if find (\<lambda>r. snd r = f) rs = None then rs @ [(next_rowid (map fst rs), f)] else rs"
  let ?con1 = "con\<lparr>content := (content con)\<lparr>rule_run := Rows ?rs1,
           target_output := Rows (filter (\<lambda>r. to_run r \<noteq> run1) ts @ new1)\<rparr>\<rparr>"
  have r1: "ready ?con1" using set_keeps_ready [OF assms(1), of f outs1] first(4) by simp
  have found: "find (\<lambda>r. snd r = f) ?rs1 \<noteq> None" using first(5) by auto
  from r1 show ?thesis
  proof (cases rule: set_ready_cases [of ?con1 outs2 f])
    case raised
    with assms(3) show ?thesis by simp
  next
    case second: (returned run2 new2 rs' ts')
    from second(2) have rs': "rs' = ?rs1" by simp
    have "(if find (\<lambda>r. snd r = f) rs' = None then rs' @ [(next_rowid (map fst rs'), f)] else rs') = rs'"
      using found unfolding rs' by (simp only: if_False)
    with second(5) have "map_option fst (find (\<lambda>r. snd r = f) ?rs1) = Some run2"
      unfolding rs' by (simp only:)
    with first(5) have same: "run2 = run1" by (simp only: option.inject)
    let ?con2 = "snd (set_rule_previous_run f outs2 ?con1)"
    have call2: "set_rule_previous_run f outs2 ?con1 = (Inr run1, ?con2)"
      using second(4) same by simp
    have rows2: "rule_run (content ?con2) = rule_run (content ?con1)"
      using second(4) rs' found by simp
    have fetch2: "fetch_target_output_fingerprint run1 t ?con2
        = Inr (map_option snd (find (\<lambda>out. fst out = t) outs2))" for t
      using set_then_fetch_output [OF r1 call2, of run1 t] by simp
    have stored: "\<forall>out\<in>set outs2. fetch_target_output_fingerprint run1 (fst out) ?con2 = Inr (Some (snd out))"
      using fetch2 find_distinct_key [OF assms(3)] by simp
    have absent: "\<forall>t. t \<notin> fst ` set outs2 \<longrightarrow> fetch_target_output_fingerprint run1 t ?con2 = Inr None"
    proof (intro allI impI)
      fix t assume "t \<notin> fst ` set outs2"
      then have "find (\<lambda>out. fst out = t) outs2 = None" by (force simp: find_None_iff)
      with fetch2 [of t] show "fetch_target_output_fingerprint run1 t ?con2 = Inr None" by simp
    qed
    from first(4) call2 rows2 stored absent show ?thesis by blast
  qed
qed

theorem record_run_idempotent_witness:
  "ready \<lparr>handle = 0, content = \<lparr>version = Rows [(76388, 1)], rule_run = Rows [],
        target_output = Rows []\<rparr>, snapshot = None\<rparr>
   \<and> distinct (map fst [(''//a:build'', [170::8 word])])
   \<and> distinct (map fst [(''//a:build'', [187::8 word]), (''//a:test'', [204])])
   \<and> (\<exists>run_id con1 con2.
        set_rule_previous_run [1] [(''//a:build'', [170])]
          \<lparr>handle = 0, content = \<lparr>version = Rows [(76388, 1)], rule_run = Rows [],
            target_output = Rows []\<rparr>, snapshot = None\<rparr> = (Inr run_id, con1)
      \<and> set_rule_previous_run [1] [(''//a:build'', [187]), (''//a:test'', [204])] con1
          = (Inr run_id, con2)
      \<and> rule_run (content con2) = rule_run (content con1)
      \<and> fetch_target_output_fingerprint run_id ''//a:build'' con2 = Inr (Some [187])
      \<and> fetch_target_output_fingerprint run_id ''//a:test'' con2 = Inr (Some [204])
      \<and> fetch_target_output_fingerprint run_id ''//a:lint'' con2 = Inr None)"
proof -
  let ?con = "\<lparr>handle = 0, content = \<lparr>version = Rows [(76388, 1)], rule_run = Rows [],
        target_output = Rows []\<rparr>, snapshot = None\<rparr>"
  have r: "ready ?con" by (simp add: ready_def has_rows_def)
  have d1: "distinct (map fst [(''//a:build'', [170::8 word])])" by simp
  have d2: "distinct (map fst [(''//a:build'', [187::8 word]), (''//a:test'', [204])])" by simp
  from record_run_idempotent [OF r d1 d2, of "[1]"] obtain run_id con1 con2 where
    c: "set_rule_previous_run [1] [(''//a:build'', [170])] ?con = (Inr run_id, con1)"
      "set_rule_previous_run [1] [(''//a:build'', [187]), (''//a:test'', [204])] con1 = (Inr run_id, con2)"
      "rule_run (content con2) = rule_run (content con1)"
      "\<forall>out\<in>set [(''//a:build'', [187::8 word]), (''//a:test'', [204])].
          fetch_target_output_fingerprint run_id (fst out) con2 = Inr (Some (snd out))"
      "\<forall>t. t \<notin> fst ` set [(''//a:build'', [187::8 word]), (''//a:test'', [204])]
          \<longrightarrow> fetch_target_output_fingerprint run_id t con2 = Inr None"
    by blast
  from c(4) have f1: "fetch_target_output_fingerprint run_id ''//a:build'' con2 = Inr (Some [187])"
    and f2: "fetch_target_output_fingerprint run_id ''//a:test'' con2 = Inr (Some [204])" by simp_all
  from c(5) [rule_format, of "''//a:lint''"]
  have f3: "fetch_target_output_fingerprint run_id ''//a:lint'' con2 = Inr None" by simp
  from r d1 d2 c(1,2,3) f1 f2 f3 show ?thesis by blast
qed

lemma record_runs_snoc:
  "record_runs (calls @ [call]) con
     = snd (set_rule_previous_run (fst call) (snd call) (record_runs calls con))"
  by (simp add: record_runs_def)

lemma record_runs_ready: "ready con \<Longrightarrow> ready (record_runs calls con)"
  by (induction calls rule: rev_induct) (simp_all add: record_runs_def set_keeps_ready)

text \<open>
  C4. Round trip. On a ready store \<open>set_rule_previous_run f outs\<close> returns a run
  identifier, and \<open>fetch_rule_previous_run f\<close> then returns exactly that identifier. A
  fingerprint that the store does not know and that none of the calls made since has
  recorded is answered with \<open>None\<close>.
\<close>

theorem record_then_fetch_run:
  assumes "ready con"
  shows "(distinct (map fst outs) \<longrightarrow>
            (\<exists>run_id con'. set_rule_previous_run f outs con = (Inr run_id, con')
               \<and> fetch_rule_previous_run f con' = Inr (Some run_id)))
       \<and> (fetch_rule_previous_run f con = Inr None \<and> f \<notin> fst ` set calls \<longrightarrow>
            fetch_rule_previous_run f (record_runs calls con) = Inr None)"
proof (intro conjI impI)
  assume d: "distinct (map fst outs)"
  from assms show "\<exists>run_id con'. set_rule_previous_run f outs con = (Inr run_id, con')
               \<and> fetch_rule_previous_run f con' = Inr (Some run_id)"
  proof (cases rule: set_ready_cases [of con outs f])
    case raised
    with d show ?thesis by simp
  next
    case (returned run_id new rs ts)
    from set_then_fetch_run [OF assms returned(4)] returned(4) show ?thesis by blast
  qed
next
  assume a: "fetch_rule_previous_run f con = Inr None \<and> f \<notin> fst ` set calls"
  then have "f \<notin> fst ` set calls" by simp
  then show "fetch_rule_previous_run f (record_runs calls con) = Inr None"
  proof (induction calls rule: rev_induct)
    case Nil
    with a show ?case by (simp add: record_runs_def)
  next
    case (snoc call calls)
    then have ne: "fst call \<noteq> f" and ih: "fetch_rule_previous_run f (record_runs calls con) = Inr None"
      by auto
    have "ready (record_runs calls con)" using assms by (rule record_runs_ready)
    from set_other_run [OF this, where f' = "fst call" and f = f and outs = "snd call"] ne ih
    show ?case by (simp add: record_runs_snoc)
  qed
qed

theorem record_then_fetch_run_witness:
  "ready \<lparr>handle = 0, content = \<lparr>version = Rows [(76388, 1)], rule_run = Rows [],
        target_output = Rows []\<rparr>, snapshot = None\<rparr>
   \<and> distinct (map fst [(''//a:build'', [170::8 word])])
   \<and> (\<exists>run_id con'.
        set_rule_previous_run [1] [(''//a:build'', [170])]
          \<lparr>handle = 0, content = \<lparr>version = Rows [(76388, 1)], rule_run = Rows [],
            target_output = Rows []\<rparr>, snapshot = None\<rparr> = (Inr run_id, con')
        \<and> fetch_rule_previous_run [1] con' = Inr (Some run_id))
   \<and> fetch_rule_previous_run [1]
        \<lparr>handle = 0, content = \<lparr>version = Rows [(76388, 1)], rule_run = Rows [],
            target_output = Rows []\<rparr>, snapshot = None\<rparr> = Inr None
   \<and> [1] \<notin> fst ` set [([2::8 word], [(''//b:build'', [17::8 word])])]
   \<and> fetch_rule_previous_run [1]
        (record_runs [([2], [(''//b:build'', [17])])]
          \<lparr>handle = 0, content = \<lparr>version = Rows [(76388, 1)], rule_run = Rows [],
            target_output = Rows []\<rparr>, snapshot = None\<rparr>) = Inr None"
  using record_then_fetch_run
    [of "\<lparr>handle = 0, content = \<lparr>version = Rows [(76388, 1)], rule_run = Rows [],
            target_output = Rows []\<rparr>, snapshot = None\<rparr>"
        "[(''//a:build'', [170])]" "[1]" "[([2], [(''//b:build'', [17])])]"]
  by (simp add: ready_def has_rows_def fetch_rule_previous_run_def SQL_FETCH_RULE_RUN_def)

text \<open>
  C8. \<open>fetch_target_output_fingerprint\<close> returns \<open>None\<close>, and no error, for a pair of
  run identifier and target that was never recorded: the store had no fingerprint for the
  pair, and no call made since returned that run identifier with the target among its
  outputs. This covers a run identifier that no call returned and a run whose outputs do
  not name the target.
\<close>

theorem fetch_output_never_recorded:
  assumes "ready con"
    and "fetch_target_output_fingerprint run_id t con = Inr None"
    and "\<forall>i<length calls.
           fst (set_rule_previous_run (fst (calls ! i)) (snd (calls ! i))
                  (record_runs (take i calls) con)) = Inr run_id
           \<longrightarrow> t \<notin> fst ` set (snd (calls ! i))"
  shows "fetch_target_output_fingerprint run_id t (record_runs calls con) = Inr None"
  using assms(3)
proof (induction calls rule: rev_induct)
  case Nil
  with assms(2) show ?case by (simp add: record_runs_def)
next
  case (snoc call calls)
  have "\<forall>i<length calls.
           fst (set_rule_previous_run (fst (calls ! i)) (snd (calls ! i))
                  (record_runs (take i calls) con)) = Inr run_id
           \<longrightarrow> t \<notin> fst ` set (snd (calls ! i))"
  proof (intro allI impI)
    fix i assume i: "i < length calls"
      and r: "fst (set_rule_previous_run (fst (calls ! i)) (snd (calls ! i))
                  (record_runs (take i calls) con)) = Inr run_id"
    from i have "(calls @ [call]) ! i = calls ! i" "take i (calls @ [call]) = take i calls"
      by (simp_all add: nth_append)
    with snoc.prems i r show "t \<notin> fst ` set (snd (calls ! i))"
      by (metis length_append_singleton less_SucI)
  qed
  with snoc.IH have ih: "fetch_target_output_fingerprint run_id t (record_runs calls con) = Inr None"
    by blast
  let ?c = "record_runs calls con"
  have last: "fst (set_rule_previous_run (fst call) (snd call) ?c) = Inr run_id
           \<longrightarrow> t \<notin> fst ` set (snd call)"
    using snoc.prems [rule_format, of "length calls"] by simp
  have rc: "ready ?c" using assms(1) by (rule record_runs_ready)
  show ?case
  proof (cases "set_rule_previous_run (fst call) (snd call) ?c")
    case (Pair res c')
    show ?thesis
    proof (cases res)
      case (Inl e)
      with Pair rc have "c' = ?c"
        using set_fail_unchanged [of ?c "fst call" "snd call" e] by (simp add: ready_def)
      with Pair ih show ?thesis by (simp add: record_runs_snoc)
    next
      case (Inr r)
      with Pair have call: "set_rule_previous_run (fst call) (snd call) ?c = (Inr r, c')" by simp
      show ?thesis
      proof (cases "r = run_id")
        case True
        with last call have "t \<notin> fst ` set (snd call)" by simp
        then have "find (\<lambda>out. fst out = t) (snd call) = None" by (force simp: find_None_iff)
        with set_then_fetch_output [OF rc call, of run_id t] True call show ?thesis
          by (simp add: record_runs_snoc)
      next
        case False
        with set_then_fetch_output [OF rc call, of run_id t] ih call show ?thesis
          by (simp add: record_runs_snoc)
      qed
    qed
  qed
qed

theorem fetch_output_never_recorded_witness:
  "ready \<lparr>handle = 0, content = \<lparr>version = Rows [(76388, 1)], rule_run = Rows [],
        target_output = Rows []\<rparr>, snapshot = None\<rparr>
   \<and> fetch_target_output_fingerprint 1 ''//a:test''
        \<lparr>handle = 0, content = \<lparr>version = Rows [(76388, 1)], rule_run = Rows [],
            target_output = Rows []\<rparr>, snapshot = None\<rparr> = Inr None
   \<and> ''//a:test'' \<notin> fst ` set [(''//a:build'', [170::8 word])]
   \<and> fetch_target_output_fingerprint 1 ''//a:test''
        (record_runs [([1], [(''//a:build'', [170])])]
          \<lparr>handle = 0, content = \<lparr>version = Rows [(76388, 1)], rule_run = Rows [],
            target_output = Rows []\<rparr>, snapshot = None\<rparr>) = Inr None"
  using fetch_output_never_recorded
    [of "\<lparr>handle = 0, content = \<lparr>version = Rows [(76388, 1)], rule_run = Rows [],
            target_output = Rows []\<rparr>, snapshot = None\<rparr>"
        1 "''//a:test''" "[([1], [(''//a:build'', [170])])]"]
  by (simp add: ready_def has_rows_def fetch_target_output_fingerprint_def
      SQL_FETCH_TARGET_OUTPUT_def)

lemma new_rows_owned:
  assumes "map snd new = map (\<lambda>out. (run, fst out, snd out)) outs"
  shows "filter (\<lambda>r. to_run r \<noteq> run) new = []"
proof -
  have "\<forall>p\<in>set (map snd new). fst p = run" unfolding assms by simp
  then show ?thesis by (auto simp: filter_empty_conv to_run_def)
qed

text \<open>
  C10. Frame. A call that returns leaves the version table, every row of \<open>rule_run\<close>
  with another fingerprint and every row of \<open>target_output\<close> owned by another run as
  they were.
\<close>

theorem record_run_frame:
  assumes "ready con" "set_rule_previous_run f outs con = (Inr run_id, con')"
  shows "version (content con') = version (content con)
       \<and> filter (\<lambda>r. snd r \<noteq> f) (rows (rule_run (content con')))
           = filter (\<lambda>r. snd r \<noteq> f) (rows (rule_run (content con)))
       \<and> filter (\<lambda>r. to_run r \<noteq> run_id) (rows (target_output (content con')))
           = filter (\<lambda>r. to_run r \<noteq> run_id) (rows (target_output (content con)))"
  using assms(1)
proof (cases rule: set_ready_cases [of con outs f])
  case raised
  with assms(2) show ?thesis by simp
next
  case (returned run_id' new rs ts)
  with assms(2) have eq: "run_id' = run_id" by simp
  from new_rows_owned [OF returned(6)] eq
  have "filter (\<lambda>r. to_run r \<noteq> run_id) new = []" by simp
  with returned assms(2) eq show ?thesis by (auto simp: rows_def)
qed

lemma scenario_first_call:
  "set_rule_previous_run [1] [(''//a:build'', [170])]
     \<lparr>handle = 0, content = \<lparr>version = Rows [(76388, 1)], rule_run = Rows [(1, [9])],
        target_output = Rows [(1, 1, ''//z:doc'', [3])]\<rparr>, snapshot = None\<rparr>
   = (Inr 2, \<lparr>handle = 0, content = \<lparr>version = Rows [(76388, 1)],
        rule_run = Rows [(1, [9]), (2, [1])],
        target_output = Rows [(1, 1, ''//z:doc'', [3]), (2, 2, ''//a:build'', [170])]\<rparr>,
        snapshot = None\<rparr>)"
  by (simp add: run_store_defs)

theorem record_run_frame_witness:
  "ready \<lparr>handle = 0, content = \<lparr>version = Rows [(76388, 1)], rule_run = Rows [(1, [9])],
        target_output = Rows [(1, 1, ''//z:doc'', [3])]\<rparr>, snapshot = None\<rparr>
   \<and> set_rule_previous_run [1] [(''//a:build'', [170])]
       \<lparr>handle = 0, content = \<lparr>version = Rows [(76388, 1)], rule_run = Rows [(1, [9])],
        target_output = Rows [(1, 1, ''//z:doc'', [3])]\<rparr>, snapshot = None\<rparr>
     = (Inr 2, \<lparr>handle = 0, content = \<lparr>version = Rows [(76388, 1)],
        rule_run = Rows [(1, [9]), (2, [1])],
        target_output = Rows [(1, 1, ''//z:doc'', [3]), (2, 2, ''//a:build'', [170])]\<rparr>,
        snapshot = None\<rparr>)
   \<and> filter (\<lambda>r. snd r \<noteq> [1]) [(1, [9]), (2::int, [1::8 word])] = [(1, [9])]
   \<and> filter (\<lambda>r. to_run r \<noteq> 2) [(1, 1, ''//z:doc'', [3]), (2, 2, ''//a:build'', [170])]
       = [(1, 1, ''//z:doc'', [3])]"
  using record_run_frame
    [of "\<lparr>handle = 0, content = \<lparr>version = Rows [(76388, 1)], rule_run = Rows [(1, [9])],
        target_output = Rows [(1, 1, ''//z:doc'', [3])]\<rparr>, snapshot = None\<rparr>"
      "[1]" "[(''//a:build'', [170])]" 2
      "\<lparr>handle = 0, content = \<lparr>version = Rows [(76388, 1)],
        rule_run = Rows [(1, [9]), (2, [1])],
        target_output = Rows [(1, 1, ''//z:doc'', [3]), (2, 2, ''//a:build'', [170])]\<rparr>,
        snapshot = None\<rparr>"]
    scenario_first_call
  by (simp add: ready_def has_rows_def rows_def to_run_def)

lemma next_rowid_fresh: "next_rowid ids \<notin> set ids"
proof (cases ids)
  case Nil
  then show ?thesis by simp
next
  case (Cons i "is")
  have "fold max is i = Max (set (i # is))" by (rule Max.set_eq_fold [symmetric])
  then have "\<forall>x\<in>set (i # is). x \<le> fold max is i" by simp
  then have "\<forall>x\<in>set ids. x < next_rowid ids" using Cons by (auto simp: next_rowid_def)
  then show ?thesis by blast
qed

lemma set_keeps_keys:
  assumes "ready con" "distinct (map fst (rows (rule_run (content con))))"
  shows "distinct (map fst (rows (rule_run (content (snd (set_rule_previous_run f outs con))))))"
  using assms(1)
proof (cases rule: set_ready_cases [of con outs f])
  case raised
  with assms(2) show ?thesis by simp
next
  case (returned run_id new rs ts)
  with assms(2) next_rowid_fresh [of "map fst rs"] show ?thesis by (simp add: rows_def)
qed

lemma set_keeps_rows:
  assumes "ready con"
  shows "set (rows (rule_run (content con)))
       \<subseteq> set (rows (rule_run (content (snd (set_rule_previous_run f outs con)))))"
  using assms
proof (cases rule: set_ready_cases [of con outs f])
  case raised
  then show ?thesis by simp
next
  case (returned run_id new rs ts)
  then show ?thesis by (auto simp: rows_def)
qed

lemma find_SomeD: "find P xs = Some x \<Longrightarrow> x \<in> set xs \<and> P x"
  by (induction xs) (auto split: if_splits)

lemma set_result_row:
  assumes "ready con" "set_rule_previous_run f outs con = (Inr run_id, con')"
  shows "(run_id, f) \<in> set (rows (rule_run (content con')))"
  using assms(1)
proof (cases rule: set_ready_cases [of con outs f])
  case raised
  with assms(2) show ?thesis by simp
next
  case (returned run_id' new rs ts)
  let ?rs = "if find (\<lambda>r. snd r = f) rs = None then rs @ [(next_rowid (map fst rs), f)] else rs"
  from returned(5) obtain row where row: "find (\<lambda>r. snd r = f) ?rs = Some row" "fst row = run_id'"
    by auto
  from find_SomeD [OF row(1)] have "row \<in> set ?rs" "snd row = f" by simp_all
  with row(2) have "(run_id', f) \<in> set ?rs" by (cases row) simp
  with returned(4) assms(2) show ?thesis by (auto simp: rows_def)
qed

lemma record_runs_append:
  "record_runs (xs @ ys) con = record_runs ys (record_runs xs con)"
  by (simp add: record_runs_def)

lemma record_runs_Cons:
  "record_runs (call # calls) con
     = record_runs calls (snd (set_rule_previous_run (fst call) (snd call) con))"
  by (simp add: record_runs_def)

lemma record_runs_keeps_keys:
  "ready con \<Longrightarrow> distinct (map fst (rows (rule_run (content con))))
   \<Longrightarrow> distinct (map fst (rows (rule_run (content (record_runs calls con)))))"
  by (induction calls arbitrary: con)
     (simp_all add: record_runs_Cons set_keeps_keys set_keeps_ready record_runs_def)

lemma record_runs_keeps_rows:
  "ready con \<Longrightarrow> set (rows (rule_run (content con)))
       \<subseteq> set (rows (rule_run (content (record_runs calls con))))"
proof (induction calls arbitrary: con)
  case Nil
  then show ?case by (simp add: record_runs_def)
next
  case (Cons call calls)
  from Cons.IH [OF set_keeps_ready [OF Cons.prems, of "fst call" "snd call"]]
    set_keeps_rows [OF Cons.prems, of "fst call" "snd call"]
  show ?case unfolding record_runs_Cons by (rule subset_trans [rotated])
qed

lemma result_row_stays:
  assumes "ready con" "k < length calls"
    and "fst (set_rule_previous_run (fst (calls ! k)) (snd (calls ! k))
                  (record_runs (take k calls) con)) = Inr run_id"
  shows "(run_id, fst (calls ! k)) \<in> set (rows (rule_run (content (record_runs calls con))))"
proof -
  let ?c = "record_runs (take k calls) con"
  let ?c' = "snd (set_rule_previous_run (fst (calls ! k)) (snd (calls ! k)) ?c)"
  have rc: "ready ?c" using assms(1) by (rule record_runs_ready)
  have call: "set_rule_previous_run (fst (calls ! k)) (snd (calls ! k)) ?c = (Inr run_id, ?c')"
    using assms(3) by (cases "set_rule_previous_run (fst (calls ! k)) (snd (calls ! k)) ?c") simp
  from set_result_row [OF rc call]
  have here: "(run_id, fst (calls ! k)) \<in> set (rows (rule_run (content ?c')))" .
  have "calls = take k calls @ calls ! k # drop (Suc k) calls"
    using assms(2) by (rule id_take_nth_drop)
  then have "record_runs calls con = record_runs (take k calls @ calls ! k # drop (Suc k) calls) con"
    by simp
  also have "\<dots> = record_runs (drop (Suc k) calls) ?c'"
    by (simp only: record_runs_append record_runs_Cons)
  finally have final: "record_runs calls con = record_runs (drop (Suc k) calls) ?c'" .
  have "ready ?c'" using rc by (rule set_keeps_ready)
  from record_runs_keeps_rows [OF this, of "drop (Suc k) calls"] here final
  show ?thesis by auto
qed

text \<open>
  C5. In a store whose run identifiers are distinct, as the primary key makes them, two
  calls of any sequence of calls that record different fingerprints and return, return
  different run identifiers.
\<close>

theorem distinct_fingerprints_distinct_runs:
  assumes "ready con"
    and "distinct (map fst (rows (rule_run (content con))))"
    and "i < length calls" "j < length calls"
    and "fst (calls ! i) \<noteq> fst (calls ! j)"
    and "fst (set_rule_previous_run (fst (calls ! i)) (snd (calls ! i))
                  (record_runs (take i calls) con)) = Inr a"
    and "fst (set_rule_previous_run (fst (calls ! j)) (snd (calls ! j))
                  (record_runs (take j calls) con)) = Inr b"
  shows "a \<noteq> b"
proof
  assume "a = b"
  let ?rs = "rows (rule_run (content (record_runs calls con)))"
  have "(a, fst (calls ! i)) \<in> set ?rs" using assms(1,3,6) by (rule result_row_stays)
  moreover have "(a, fst (calls ! j)) \<in> set ?rs"
    using result_row_stays [OF assms(1,4,7)] \<open>a = b\<close> by simp
  moreover have "distinct (map fst ?rs)" using assms(1,2) by (rule record_runs_keeps_keys)
  ultimately have "fst (calls ! i) = fst (calls ! j)" by (rule eq_key_imp_eq_value [rotated])
  with assms(5) show False by contradiction
qed

theorem distinct_fingerprints_distinct_runs_witness:
  "ready \<lparr>handle = 0, content = \<lparr>version = Rows [(76388, 1)], rule_run = Rows [],
        target_output = Rows []\<rparr>, snapshot = None\<rparr>
   \<and> fst (set_rule_previous_run [1] [(''//a:build'', [170])]
        \<lparr>handle = 0, content = \<lparr>version = Rows [(76388, 1)], rule_run = Rows [],
        target_output = Rows []\<rparr>, snapshot = None\<rparr>) = Inr 1
   \<and> fst (set_rule_previous_run [2] [(''//b:build'', [187])]
        (record_runs [([1], [(''//a:build'', [170])])]
          \<lparr>handle = 0, content = \<lparr>version = Rows [(76388, 1)], rule_run = Rows [],
          target_output = Rows []\<rparr>, snapshot = None\<rparr>)) = Inr 2
   \<and> (1::int) \<noteq> 2"
  using distinct_fingerprints_distinct_runs
    [of "\<lparr>handle = 0, content = \<lparr>version = Rows [(76388, 1)], rule_run = Rows [],
        target_output = Rows []\<rparr>, snapshot = None\<rparr>"
      0 "[([1], [(''//a:build'', [170])]), ([2], [(''//b:build'', [187])])]" "Suc 0" 1 2]
  by (simp add: run_store_defs record_runs_def)

subsection \<open>Opening a store\<close>

lemmas open_defs =
  init_or_reset_db_def sqlite3_connect_def the_content_def empty_database_def
  current_db_version_def SQL_FETCH_VERSION_ROW_def unlink_incompatible_def unlink_def
  close_def recreate_def with_con_def execute_ddl_def execute_def faulty_def
  begin_transaction_def commit_def rollback_def
  SQL_CREATE_VERSION_TABLE_def SQL_CREATE_RULE_RUN_TABLE_def SQL_CREATE_TARGET_OUTPUT_TABLE_def
  create_if_not_exists_def SQL_INIT_VERSION_ROW_def DB_VERSION_def VERSION_MAGIC_NUMBER_def

lemma recreate_fresh:
  assumes "db_file w = None" "recreate_fault fs = None"
  shows "recreate fs w =
     (Inr \<lparr>handle = next_handle w,
           content = \<lparr>version = Rows [(VERSION_MAGIC_NUMBER, DB_VERSION)], rule_run = Rows [],
                       target_output = Rows []\<rparr>,
           snapshot = None\<rparr>,
      w\<lparr>db_file := Some (SQLite \<lparr>version = Rows [(VERSION_MAGIC_NUMBER, DB_VERSION)],
                                  rule_run = Rows [], target_output = Rows []\<rparr>),
        open_cons := insert (next_handle w) (open_cons w),
        next_handle := Suc (next_handle w)\<rparr>)"
  using assms by (simp add: open_defs)

lemma recreate_fault_raises:
  assumes "db_file w = None" "recreate_fault fs = Some k" "k \<le> 4"
  shows "fst (recreate fs w) = Inl IsengardDBError"
proof -
  from assms(3) consider "k = 0" | "k = 1" | "k = 2" | "k = 3" | "k = 4" by linarith
  then show ?thesis using assms(1,2) by cases (simp_all add: open_defs)
qed

lemma version_unreadable:
  "version d = NoSuchTable \<or> version d = OtherLayout \<Longrightarrow> current_db_version (SQLite d) = Inr (- 1)"
  by (auto simp: current_db_version_def SQL_FETCH_VERSION_ROW_def)

lemma version_marker_read:
  "version d = Rows rs \<Longrightarrow> find (\<lambda>r. fst r = VERSION_MAGIC_NUMBER) rs = Some (m, v)
   \<Longrightarrow> current_db_version (SQLite d) = Inr v"
  by (simp add: current_db_version_def SQL_FETCH_VERSION_ROW_def)

lemma version_marker_missing:
  "version d = Rows rs \<Longrightarrow> find (\<lambda>r. fst r = VERSION_MAGIC_NUMBER) rs = None
   \<Longrightarrow> current_db_version (SQLite d) = Inl TypeError"
  by (simp add: current_db_version_def SQL_FETCH_VERSION_ROW_def)

lemma incompatible_store_is_reset:
  assumes "db_file w = Some c" "current_db_version c = Inr v" "v \<noteq> DB_VERSION"
    and "\<not> open_fault fs" "\<not> unlink_denied fs" "recreate_fault fs = None"
  shows "init_or_reset_db fs w =
     (Inr \<lparr>handle = Suc (next_handle w),
           content = \<lparr>version = Rows [(VERSION_MAGIC_NUMBER, DB_VERSION)], rule_run = Rows [],
                       target_output = Rows []\<rparr>,
           snapshot = None\<rparr>,
      w\<lparr>db_file := Some (SQLite \<lparr>version = Rows [(VERSION_MAGIC_NUMBER, DB_VERSION)],
                                  rule_run = Rows [], target_output = Rows []\<rparr>),
        open_cons := insert (Suc (next_handle w)) (open_cons w - {next_handle w}),
        next_handle := Suc (Suc (next_handle w))\<rparr>)"
proof -
  let ?w1 = "w\<lparr>db_file := Some c, open_cons := insert (next_handle w) (open_cons w),
               next_handle := Suc (next_handle w)\<rparr>"
  have c1: "sqlite3_connect (open_fault fs) w = (Inr (next_handle w), ?w1)"
    using assms(1,4) by (simp add: sqlite3_connect_def the_content_def)
  have tc: "the_content ?w1 = c" by (simp add: the_content_def)
  let ?w2 = "?w1\<lparr>open_cons := open_cons ?w1 - {next_handle w}, db_file := None\<rparr>"
  have u: "unlink_incompatible fs (close (next_handle w) ?w1) = (Inr (), ?w2)"
    using assms(5) by (simp add: unlink_incompatible_def unlink_def close_def)
  have "init_or_reset_db fs w = recreate fs ?w2"
    unfolding init_or_reset_db_def c1 using assms(2,3) u by (simp add: tc)
  also have "\<dots> = (Inr \<lparr>handle = next_handle ?w2,
           content = \<lparr>version = Rows [(VERSION_MAGIC_NUMBER, DB_VERSION)], rule_run = Rows [],
                       target_output = Rows []\<rparr>,
           snapshot = None\<rparr>,
      ?w2\<lparr>db_file := Some (SQLite \<lparr>version = Rows [(VERSION_MAGIC_NUMBER, DB_VERSION)],
                                  rule_run = Rows [], target_output = Rows []\<rparr>),
        open_cons := insert (next_handle ?w2) (open_cons ?w2),
        next_handle := Suc (next_handle ?w2)\<rparr>)"
    using assms(6) by (intro recreate_fresh) simp_all
  finally show ?thesis by simp
qed

lemma deletion_refused_raises:
  assumes "db_file w = Some c" "current_db_version c = Inr v" "v \<noteq> DB_VERSION"
    and "\<not> open_fault fs" "unlink_denied fs"
  shows "init_or_reset_db fs w =
     (Inl IsengardDBError,
      w\<lparr>open_cons := open_cons w - {next_handle w}, next_handle := Suc (next_handle w)\<rparr>)"
proof -
  let ?w1 = "w\<lparr>db_file := Some c, open_cons := insert (next_handle w) (open_cons w),
               next_handle := Suc (next_handle w)\<rparr>"
  have c1: "sqlite3_connect (open_fault fs) w = (Inr (next_handle w), ?w1)"
    using assms(1,4) by (simp add: sqlite3_connect_def the_content_def)
  have tc: "the_content ?w1 = c" by (simp add: the_content_def)
  have u: "unlink_incompatible fs (close (next_handle w) ?w1)
      = (Inl IsengardDBError, ?w1\<lparr>open_cons := open_cons ?w1 - {next_handle w}\<rparr>)"
    using assms(5) by (simp add: unlink_incompatible_def unlink_def close_def)
  have "init_or_reset_db fs w = (Inl IsengardDBError, ?w1\<lparr>open_cons := open_cons ?w1 - {next_handle w}\<rparr>)"
    unfolding init_or_reset_db_def c1 using assms(2,3) u by (simp add: tc)
  moreover have "?w1\<lparr>open_cons := open_cons ?w1 - {next_handle w}\<rparr>
      = w\<lparr>open_cons := open_cons w - {next_handle w}, next_handle := Suc (next_handle w)\<rparr>"
    using assms(1) by simp
  ultimately show ?thesis by simp
qed

lemma recreation_failure_raises:
  assumes "db_file w = Some c" "current_db_version c = Inr v" "v \<noteq> DB_VERSION"
    and "\<not> open_fault fs" "\<not> unlink_denied fs" "recreate_fault fs = Some k" "k \<le> 4"
  shows "fst (init_or_reset_db fs w) = Inl IsengardDBError"
proof -
  let ?w1 = "w\<lparr>db_file := Some c, open_cons := insert (next_handle w) (open_cons w),
               next_handle := Suc (next_handle w)\<rparr>"
  have c1: "sqlite3_connect (open_fault fs) w = (Inr (next_handle w), ?w1)"
    using assms(1,4) by (simp add: sqlite3_connect_def the_content_def)
  have tc: "the_content ?w1 = c" by (simp add: the_content_def)
  let ?w2 = "?w1\<lparr>open_cons := open_cons ?w1 - {next_handle w}, db_file := None\<rparr>"
  have u: "unlink_incompatible fs (close (next_handle w) ?w1) = (Inr (), ?w2)"
    using assms(5) by (simp add: unlink_incompatible_def unlink_def close_def)
  have "init_or_reset_db fs w = recreate fs ?w2"
    unfolding init_or_reset_db_def c1 using assms(2,3) u by (simp add: tc)
  moreover have "fst (recreate fs ?w2) = Inl IsengardDBError"
    using assms(6,7) by (intro recreate_fault_raises) simp_all
  ultimately show ?thesis by simp
qed

lemma compatible_store_is_kept:
  assumes "db_file w = Some (SQLite d)" "current_db_version (SQLite d) = Inr DB_VERSION"
    and "\<not> open_fault fs"
  shows "init_or_reset_db fs w =
     (Inr \<lparr>handle = next_handle w, content = d, snapshot = None\<rparr>,
      w\<lparr>open_cons := insert (next_handle w) (open_cons w), next_handle := Suc (next_handle w)\<rparr>)"
proof -
  have "w\<lparr>db_file := Some (SQLite d)\<rparr> = w" using assms(1) by simp
  then show ?thesis
    using assms by (simp add: init_or_reset_db_def sqlite3_connect_def the_content_def)
qed

lemma connect_releases:
  assumes "init_or_reset_db fs w = (Inr con, w1)"
  shows "handle con \<notin> open_cons (snd (connect fs block w))"
  using assms by (simp add: connect_def close_def split: prod.splits)

text \<open>
  C7. Opening a location with no file, when nothing is refused, returns a connection to a
  store with no row in \<open>rule_run\<close>, no row in \<open>target_output\<close> and exactly one row in
  \<open>version\<close>, the magic number with the current schema version. The file holds that
  store, and the one connection left open is the one returned.
\<close>

theorem fresh_location_opens_empty:
  assumes "db_file w = None" "\<not> open_fault fs" "\<not> unlink_denied fs" "recreate_fault fs = None"
  shows "init_or_reset_db fs w =
     (Inr \<lparr>handle = Suc (next_handle w),
           content = \<lparr>version = Rows [(VERSION_MAGIC_NUMBER, DB_VERSION)], rule_run = Rows [],
                       target_output = Rows []\<rparr>,
           snapshot = None\<rparr>,
      w\<lparr>db_file := Some (SQLite \<lparr>version = Rows [(VERSION_MAGIC_NUMBER, DB_VERSION)],
                                  rule_run = Rows [], target_output = Rows []\<rparr>),
        open_cons := insert (Suc (next_handle w)) (open_cons w - {next_handle w}),
        next_handle := Suc (Suc (next_handle w))\<rparr>)"
  using assms by (simp add: open_defs)

theorem fresh_location_opens_empty_witness:
  "db_file \<lparr>db_file = None, open_cons = {}, next_handle = 0\<rparr> = None
   \<and> \<not> open_fault \<lparr>open_fault = False, unlink_denied = False, recreate_fault = None\<rparr>
   \<and> \<not> unlink_denied \<lparr>open_fault = False, unlink_denied = False, recreate_fault = None\<rparr>
   \<and> recreate_fault \<lparr>open_fault = False, unlink_denied = False, recreate_fault = None\<rparr> = None
   \<and> init_or_reset_db \<lparr>open_fault = False, unlink_denied = False, recreate_fault = None\<rparr>
        \<lparr>db_file = None, open_cons = {}, next_handle = 0\<rparr>
      = (Inr \<lparr>handle = 1,
           content = \<lparr>version = Rows [(76388, 1)], rule_run = Rows [], target_output = Rows []\<rparr>,
           snapshot = None\<rparr>,
         \<lparr>db_file = Some (SQLite \<lparr>version = Rows [(76388, 1)], rule_run = Rows [],
              target_output = Rows []\<rparr>),
          open_cons = {1}, next_handle = 2\<rparr>)"
  using fresh_location_opens_empty
    [of "\<lparr>db_file = None, open_cons = {}, next_handle = 0\<rparr>"
        "\<lparr>open_fault = False, unlink_denied = False, recreate_fault = None\<rparr>"]
  by (simp add: DB_VERSION_def VERSION_MAGIC_NUMBER_def)

text \<open>
  C3. A store whose version table exists and is empty is not taken for incompatible:
  \<open>fetchone()\<close> returns \<open>None\<close>, unpacking it raises \<open>TypeError\<close>, and the handler
  catches \<open>OperationalError\<close> only. The error goes to the caller of
  \<open>init_or_reset_db\<close>, the file is left as it was and the connection stays open. The
  lemmas \<open>version_unreadable\<close> and \<open>incompatible_store_is_reset\<close> above cover the
  version table that is absent or has other columns, which the code does handle.
\<close>

theorem marker_row_missing_raises:
  "init_or_reset_db \<lparr>open_fault = False, unlink_denied = False, recreate_fault = None\<rparr>
     \<lparr>db_file = Some (SQLite \<lparr>version = Rows [], rule_run = Rows [], target_output = Rows []\<rparr>),
      open_cons = {}, next_handle = 0\<rparr>
   = (Inl TypeError,
      \<lparr>db_file = Some (SQLite \<lparr>version = Rows [], rule_run = Rows [], target_output = Rows []\<rparr>),
       open_cons = {0}, next_handle = 1\<rparr>)"
  by (simp add: open_defs)

text \<open>
  C6. A store that holds a run and its output, and whose version table has no row with
  the magic number, is not replaced by a fresh store: opening it raises \<open>TypeError\<close>
  and leaves the file as it was. For a store whose version cannot be read because of
  \<open>OperationalError\<close>, or whose version is another one, the lemmas
  \<open>incompatible_store_is_reset\<close>, \<open>deletion_refused_raises\<close> and
  \<open>recreation_failure_raises\<close> above give the reset and its two failures.
\<close>

theorem store_without_marker_not_replaced:
  "init_or_reset_db \<lparr>open_fault = False, unlink_denied = False, recreate_fault = None\<rparr>
     \<lparr>db_file = Some (SQLite \<lparr>version = Rows [(1, 1)], rule_run = Rows [(1, [7])],
        target_output = Rows [(1, 1, ''//a:build'', [170])]\<rparr>),
      open_cons = {}, next_handle = 0\<rparr>
   = (Inl TypeError,
      \<lparr>db_file = Some (SQLite \<lparr>version = Rows [(1, 1)], rule_run = Rows [(1, [7])],
        target_output = Rows [(1, 1, ''//a:build'', [170])]\<rparr>),
       open_cons = {0}, next_handle = 1\<rparr>)"
  by (simp add: open_defs)

text \<open>
  C9. When the recreation fails, here at the \<open>INSERT\<close> of the version row on a fresh
  location, \<open>connect\<close> raises \<open>IsengardDBError\<close> and the connection opened for the
  recreation is still open: \<open>init_or_reset_db\<close> runs before the \<open>try\<close> of \<open>connect\<close>
  and closes only the first connection. By \<open>connect_releases\<close> and
  \<open>deletion_refused_raises\<close> above, the connection is released once
  \<open>init_or_reset_db\<close> has returned, however the block ends, and when the deletion is
  refused.
\<close>

theorem recreation_failure_leaks_connection:
  "connect \<lparr>open_fault = False, unlink_denied = False, recreate_fault = Some 4\<rparr>
     (\<lambda>con. (Inr (), con))
     \<lparr>db_file = None, open_cons = {}, next_handle = 0\<rparr>
   = (Inl IsengardDBError,
      \<lparr>db_file = Some (SQLite \<lparr>version = Rows [], rule_run = Rows [], target_output = Rows []\<rparr>),
       open_cons = {1}, next_handle = 2\<rparr>)"
  by (simp add: connect_def open_defs)

end
